theory Spec2Isabelle
  imports Main "HOL-Library.Word"
begin

section \<open>The readline utility: one edited line (utils/readline/terminal.go)\<close>

text \<open>
  A \<open>Line\<close> is the Go struct of the same name: the insert position (a Go \<open>int\<close>) and
  the bytes typed so far. A slice expression or an index out of range panics in Go; the
  model returns the panic as the left summand. The methods mutate the receiver; the model
  returns the new receiver together with the values the method returns.

  A slice's length always fits a Go \<open>int\<close>, so a position that is bounded by a length is
  computed on \<open>int\<close> as it stands. \<open>moveCursor\<close> adds an offset chosen by the caller, so
  there the 64-bit wrap-around of the addition is written out (\<open>int64\<close>).
\<close>

type_synonym byte = "8 word"

record Line =
  insertPos :: int
  content :: "byte list"

datatype panic = SliceBoundsOutOfRange | IndexOutOfRange

definition int64 :: "int \<Rightarrow> int" where
  "int64 x = sint (word_of_int x :: 64 word)"

definition newLine :: Line where
  "newLine = \<lparr>insertPos = 0, content = []\<rparr>"

definition newLineFrom :: "byte list \<Rightarrow> Line" where
  "newLineFrom bs = \<lparr>insertPos = int (length bs), content = bs\<rparr>"

text \<open>\<open>s[low:]\<close>: panics unless \<open>0 \<le> low \<le> len(s)\<close>.\<close>

definition slice_from :: "'a list \<Rightarrow> int \<Rightarrow> panic + 'a list" where
  "slice_from s low =
     (if 0 \<le> low \<and> low \<le> int (length s) then Inr (drop (nat low) s)
      else Inl SliceBoundsOutOfRange)"

text \<open>
  \<open>copy(a[d:], a[s:])\<close> inside one array, for \<open>d\<close> and \<open>s\<close> within the length: Go
  copies \<open>min(len(dst), len(src))\<close> elements as if through a temporary buffer.
\<close>

definition copy_within :: "'a list \<Rightarrow> nat \<Rightarrow> nat \<Rightarrow> 'a list" where
  "copy_within a d s =
     (let src = drop s a; n = min (length a - d) (length src)
      in take d a @ take n src @ drop (d + n) a)"

text \<open>\<open>a[i] = c\<close>: panics unless \<open>0 \<le> i < len(a)\<close>.\<close>

definition set_index :: "'a list \<Rightarrow> int \<Rightarrow> 'a \<Rightarrow> panic + 'a list" where
  "set_index a i c =
     (if 0 \<le> i \<and> i < int (length a) then Inr (a[nat i := c]) else Inl IndexOutOfRange)"

definition Line_write :: "Line \<Rightarrow> byte \<Rightarrow> panic + (Line \<times> int \<times> byte list)" where
  "Line_write l c =
     (if insertPos l = int (length (content l)) then
        (let l1 = l\<lparr>insertPos := insertPos l + 1\<rparr>;
             l2 = l1\<lparr>content := content l1 @ [c]\<rparr>
         in case slice_from (content l2) (insertPos l2 - 1) of
              Inl e \<Rightarrow> Inl e
            | Inr out \<Rightarrow> Inr (l2, insertPos l2, out))
      else
        (let a = content l @ [0]; p = insertPos l
         in case slice_from a (p + 1) of
              Inl e \<Rightarrow> Inl e
            | Inr dst \<Rightarrow>
         (case slice_from a p of
              Inl e \<Rightarrow> Inl e
            | Inr src \<Rightarrow>
         (case set_index (copy_within a (nat (p + 1)) (nat p)) p c of
              Inl e \<Rightarrow> Inl e
            | Inr a' \<Rightarrow>
         (let l2 = l\<lparr>content := a', insertPos := p + 1\<rparr>
          in case slice_from (content l2) (insertPos l2 - 1) of
               Inl e \<Rightarrow> Inl e
             | Inr out \<Rightarrow> Inr (l2, insertPos l2, out))))))"

text \<open>
  \<open>delete\<close>: \<open>content[:insertPos-1]\<close> panics when \<open>insertPos - 1\<close> is negative (its upper
  bound is the capacity, and past the length \<open>content[insertPos:]\<close> panics anyway), then
  \<open>content[insertPos:]\<close> panics unless \<open>insertPos \<le> len(content)\<close>. The second value
  returned is the rest of the line followed by a blank.
\<close>

definition Line_delete :: "Line \<Rightarrow> panic + (Line \<times> int \<times> byte list)" where
  "Line_delete l =
     (if insertPos l = 0 then Inr (l, 0, [])
      else if insertPos l - 1 < 0 then Inl SliceBoundsOutOfRange
      else case slice_from (content l) (insertPos l) of
             Inl e \<Rightarrow> Inl e
           | Inr rest \<Rightarrow>
        (let l1 = l\<lparr>content := take (nat (insertPos l - 1)) (content l) @ rest\<rparr>;
             l2 = l1\<lparr>insertPos := insertPos l1 - 1\<rparr>
         in case slice_from (content l2) (insertPos l2) of
              Inl e \<Rightarrow> Inl e
            | Inr out \<Rightarrow> Inr (l2, insertPos l2, out @ [32])))"

definition Line_moveCursor :: "Line \<Rightarrow> int \<Rightarrow> Line" where
  "Line_moveCursor l offset =
     (let l1 = l\<lparr>insertPos := int64 (insertPos l + offset)\<rparr>
      in if insertPos l1 < 0 then l1\<lparr>insertPos := 0\<rparr>
         else if insertPos l1 > int (length (content l1)) then
           l1\<lparr>insertPos := int (length (content l1))\<rparr>
         else l1)"

definition Line_inv :: "Line \<Rightarrow> bool" where
  "Line_inv l = (0 \<le> insertPos l \<and> insertPos l \<le> int (length (content l)))"

section \<open>The server: sessions, hand-off queue, connection handler and event loop\<close>

text \<open>
  The server file declares \<open>Server\<close>, \<open>NewServer\<close>, \<open>handleRead\<close>, \<open>eventLoop\<close> and
  \<open>Start\<close>. The types \<open>Client\<close>, \<open>ClientList\<close> and \<open>TimeEventList\<close>, the wire codec
  (\<open>resp\<close>), the command handlers (\<open>cmd.Get\<close>, \<open>cmd.Set\<close>) and the logger are used there
  but declared elsewhere. What the server file reads and writes of them is modelled below;
  each part that is not in the sources says so.

  Objects that Go shares through pointers live in a store: a \<open>*Client\<close> is the session's
  identity (\<open>cid\<close>) and the store maps it to the session's fields, a \<open>*db.DataBase\<close> is a
  \<open>dbref\<close>. The hand-off queue carries \<open>*Client\<close> pointers, so what the event loop sees
  of a session is the store's content when it dequeues, not when the handler sent.

  Every operation on something outside the function (a log line, a channel send, a socket
  write, a registry call, a command handler call) is also recorded, in program order, as
  an \<open>action\<close>.
\<close>

type_synonym bytes = "byte list"
type_synonym command = "bytes list"
type_synonym cid = nat
type_synonym dbref = nat

text \<open>
  Modelled from the spec: the declaration of the session status is not in the sources. The
  server file names \<open>ERROR\<close> and \<open>EXIT\<close>; the spec gives the third state, \<open>ACTIVE\<close>.
\<close>

datatype Status = ACTIVE | ERROR | EXIT

text \<open>
  Modelled from the spec: the \<open>Client\<close> struct is not in the sources. The fields are those
  the server file uses (\<open>db\<close>, \<open>status\<close>, \<open>cmd\<close>, \<open>res\<close>) and the last-activity time of the
  spec (\<open>tp\<close>, the name in the server file's comment). \<open>cmd\<close> is a \<open>[][]byte\<close>: \<open>None\<close>
  is \<open>nil\<close>. \<open>res\<close> holds the replies sent on the reply channel and not yet taken by the
  handler. The \<open>id\<close> field is the key of the store.
\<close>

record Client =
  cli_db :: dbref
  cli_status :: Status
  cli_tp :: int
  cli_cmd :: "command option"
  cli_res :: "bytes list"

datatype action =
    Debug string
  | DebugC string cid
  | WarningC string cid
  | SendCommands cid
  | ConnWrite cid bytes
  | ConnClose cid
  | RemoveClientA cid
  | AddClientIfNotExistA cid
  | UpdateTimestampA cid
  | CmdGet dbref command
  | CmdSet dbref command
  | SendRes cid bytes
  | RunTimeEvent nat
  | RemoveLongNotUsedA int int

subsection \<open>Time and channels\<close>

text \<open>
  A \<open>time.Time\<close> is the number of nanoseconds since the Unix epoch, a \<open>time.Duration\<close> a
  number of nanoseconds; \<open>Unix()\<close> rounds down to seconds.
\<close>

definition Second :: int where
  "Second = 1000000000"

definition Unix :: "int \<Rightarrow> int" where
  "Unix t = t div Second"

text \<open>
  A buffered Go channel: a capacity and the values sent and not yet received, oldest
  first. A send on a full channel and a receive on an empty one block: the operation
  returns \<open>None\<close> and nothing changes.
\<close>

record 'a chan =
  cap :: nat
  buf :: "'a list"

definition make_chan :: "nat \<Rightarrow> 'a chan" where
  "make_chan n = \<lparr>cap = n, buf = []\<rparr>"


definition chan_recv :: "'a chan \<Rightarrow> ('a \<times> 'a chan) option" where
  "chan_recv ch =
     (case buf ch of [] \<Rightarrow> None | x # rest \<Rightarrow> Some (x, ch\<lparr>buf := rest\<rparr>))"

subsection \<open>The time-event list\<close>

text \<open>
  The only callback the server file registers is the closure of \<open>eventLoop\<close> that logs and
  calls \<open>RemoveLongNotUsed(1, 300*time.Second)\<close> on the client list. A callback is the
  number of a closure; closure 0 is that one (\<open>RemoveInactiveClients\<close>).

  Modelled from the spec: \<open>TimeEvent\<close>, \<open>NewTimeEventList\<close>, \<open>NewPeriodTimeEvent\<close>,
  \<open>AddTimeEvent\<close> and \<open>ExecuteOneIfExpire\<close> are not in the sources. A time event has a
  callback, the Unix second of its next fire, an interval and a periodic flag. A tick
  executes at most one due event, the first in the list whose fire time has come, and
  re-arms a periodic event to now plus its interval; a one-shot event leaves the list when
  it fires.
\<close>

record TimeEvent =
  te_callback :: nat
  te_when :: int
  te_interval :: int
  te_periodic :: bool

definition RemoveInactiveClients :: nat where
  "RemoveInactiveClients = 0"

definition NewTimeEventList :: "TimeEvent list" where
  "NewTimeEventList = []"

definition NewPeriodTimeEvent :: "nat \<Rightarrow> int \<Rightarrow> int \<Rightarrow> TimeEvent" where
  "NewPeriodTimeEvent f at interval =
     \<lparr>te_callback = f, te_when = at, te_interval = interval, te_periodic = True\<rparr>"

definition AddTimeEvent :: "TimeEvent list \<Rightarrow> TimeEvent \<Rightarrow> TimeEvent list" where
  "AddTimeEvent l e = l @ [e]"

fun ExecuteOneIfExpire :: "int \<Rightarrow> TimeEvent list \<Rightarrow> nat option \<times> TimeEvent list" where
  "ExecuteOneIfExpire now [] = (None, [])"
| "ExecuteOneIfExpire now (e # es) =
     (if te_when e \<le> now then
        (Some (te_callback e),
         if te_periodic e then e\<lparr>te_when := now + te_interval e div Second\<rparr> # es else es)
      else (case ExecuteOneIfExpire now es of (fired, es') \<Rightarrow> (fired, e # es')))"

subsection \<open>The client list\<close>

text \<open>
  Modelled from the spec: \<open>ClientList\<close> and its methods are not in the sources. The
  registry is the set of registered sessions; registration is idempotent and tells whether
  the session was new; removal takes the session out. \<open>UpdateTimestamp\<close> sets the session's
  last-activity time to the current time.
\<close>

definition NewClientList :: "cid set" where
  "NewClientList = {}"

definition AddClientIfNotExist :: "cid set \<Rightarrow> cid \<Rightarrow> bool \<times> cid set" where
  "AddClientIfNotExist l c = (c \<notin> l, insert c l)"

definition RemoveClient :: "cid set \<Rightarrow> cid \<Rightarrow> cid set" where
  "RemoveClient l c = l - {c}"

definition UpdateTimestamp :: "int \<Rightarrow> Client \<Rightarrow> Client" where
  "UpdateTimestamp now c = c\<lparr>cli_tp := now\<rparr>"

text \<open>
  Modelled from the spec: \<open>RemoveLongNotUsed\<close>, the idle sweep of the client list, is not
  in the sources. The server file calls it with a number and a duration. The spec's sweep
  has a threshold duration: a session with no traffic for the threshold or longer is
  removed from the registry by one sweep, and a session with traffic inside the threshold
  is never removed. The spec gives the number no part in this, so it has none here. The
  arguments after the duration are the current time, the sessions and the registry; the
  result is the registry after the sweep.
\<close>

definition RemoveLongNotUsed :: "int \<Rightarrow> int \<Rightarrow> int \<Rightarrow> (cid \<Rightarrow> Client) \<Rightarrow> cid set \<Rightarrow> cid set" where
  "RemoveLongNotUsed num d now sessions l = {c \<in> l. now - cli_tp (sessions c) < d}"

subsection \<open>Collaborators\<close>

text \<open>
  The command handlers, the reply encoder and the constructor of a database are outside
  the sources; the model takes them as parameters. A handler gets the database and the
  command and returns the reply and the database as it leaves it.
\<close>

record ('d, 'r) collaborators =
  cmd_Get :: "'d \<Rightarrow> command \<Rightarrow> 'r \<times> 'd"
  cmd_Set :: "'d \<Rightarrow> command \<Rightarrow> 'r \<times> 'd"
  ToBytes :: "'r \<Rightarrow> bytes"
  NewDataBase :: "'d"

subsection \<open>The server\<close>

record Server =
  s_dbs :: "dbref list"
  s_dbNum :: int
  s_clis :: "cid set"
  s_tl :: "TimeEvent list"
  s_url :: string
  s_commands :: "cid chan"

record 'd world =
  srv :: Server
  db_store :: "dbref \<Rightarrow> 'd"
  cli_store :: "cid \<Rightarrow> Client"

definition NewServer :: "string \<Rightarrow> Server" where
  "NewServer u =
     (let n = 2
      in \<lparr>s_dbs = [0 ..< n], s_dbNum = int n, s_clis = NewClientList, s_tl = NewTimeEventList,
          s_url = u, s_commands = make_chan 1000\<rparr>)"

subsection \<open>The connection handler\<close>

text \<open>
  A frame of the codec's stream: \<open>Err\<close> is \<open>None\<close> for \<open>nil\<close> and otherwise the text of
  \<open>Error()\<close>; \<open>Data\<close> is an array frame, carrying what \<open>ToCommand\<close> returns for it, or
  anything else. One turn of the handler's \<open>select\<close> is the case that fired with the value
  received: a frame, a reply together with whether writing it to the socket succeeded, or
  the exit signal.
\<close>

datatype RedisData = ArrayData "command option" | OtherData

record ParsedRes =
  Err :: "string option"
  Data :: RedisData

datatype handler_select = FromParser ParsedRes | FromRes bytes bool | FromExit

text \<open>
  The \<open>for running\<close> loop of \<open>handleRead\<close> over the turns of its \<open>select\<close>. The result is
  \<open>None\<close> when the turns are used up while the loop is still running: the handler then
  waits in \<open>select\<close> and has not left the loop.
\<close>

fun handleRead_loop :: "cid \<Rightarrow> Client \<Rightarrow> handler_select list \<Rightarrow> (action list \<times> Client) option" where
  "handleRead_loop cli c [] = None"
| "handleRead_loop cli c (FromParser parsed # rest) =
     (case Err parsed of
        Some e \<Rightarrow>
          Some ([if e = ''EOF'' then DebugC ''Peer ShutDown Connection'' cli
                 else DebugC (''Read Error: '' @ e) cli], c)
      | None \<Rightarrow>
          (case Data parsed of
             OtherData \<Rightarrow> Some ([WarningC ''Parse Command Error'' cli], c)
           | ArrayData a \<Rightarrow>
               (case handleRead_loop cli (c\<lparr>cli_cmd := a\<rparr>) rest of
                  None \<Rightarrow> None
                | Some (acts, c') \<Rightarrow> Some (SendCommands cli # acts, c'))))"
| "handleRead_loop cli c (FromRes r written # rest) =
     (if \<not> written then Some ([ConnWrite cli r, WarningC ''Write Error'' cli], c)
      else (case handleRead_loop cli c rest of
              None \<Rightarrow> None
            | Some (acts, c') \<Rightarrow> Some (ConnWrite cli r # acts, c')))"
| "handleRead_loop cli c (FromExit # rest) = Some ([], c)"

text \<open>What \<open>handleRead\<close> does after the loop; \<open>closed\<close> tells whether \<open>conn.Close()\<close> succeeds.\<close>

definition handleRead_exit :: "cid \<Rightarrow> Client \<Rightarrow> bool \<Rightarrow> action list \<times> Client" where
  "handleRead_exit cli c closed =
     (let (notify, c1) =
            (if cli_status c \<noteq> EXIT
             then ([SendCommands cli], c\<lparr>cli_status := ERROR, cli_cmd := None\<rparr>)
             else ([], c))
      in (notify @ [ConnClose cli] @ (if closed then [Debug ''Goroutine Exit''] else []), c1))"

text \<open>
  \<open>handleRead\<close>: \<open>c0\<close> is the session as \<open>NewClient\<close> (not in the sources) made it.
\<close>

definition handleRead :: "cid \<Rightarrow> Client \<Rightarrow> handler_select list \<Rightarrow> bool \<Rightarrow> (action list \<times> Client) option" where
  "handleRead cli c0 turns closed =
     (case handleRead_loop cli c0 turns of
        None \<Rightarrow> None
      | Some (acts, c) \<Rightarrow>
          (case handleRead_exit cli c closed of (acts', c') \<Rightarrow> Some (acts @ acts', c')))"

subsection \<open>The event loop\<close>

text \<open>The closures registered as time events, run at time \<open>now\<close>.\<close>

definition run_callback :: "int \<Rightarrow> nat \<Rightarrow> 'd world \<Rightarrow> action list \<times> 'd world" where
  "run_callback now f w =
     (if f = RemoveInactiveClients then
        ([Debug ''TimeEvent: Remove Inactive Clients'', RemoveLongNotUsedA 1 (300 * Second)],
         w\<lparr>srv := (srv w)\<lparr>s_clis :=
              RemoveLongNotUsed 1 (300 * Second) now (cli_store w) (s_clis (srv w))\<rparr>\<rparr>)
      else ([], w))"

text \<open>The statements of \<open>eventLoop\<close> before its loop, run at time \<open>now\<close>.\<close>

definition eventLoop_start :: "int \<Rightarrow> 'd world \<Rightarrow> 'd world" where
  "eventLoop_start now w =
     w\<lparr>srv := (srv w)\<lparr>s_tl :=
          AddTimeEvent (s_tl (srv w))
            (NewPeriodTimeEvent RemoveInactiveClients (Unix (now + 300 * Second)) (300 * Second))\<rparr>\<rparr>"

text \<open>
  The body of the \<open>commands\<close> case for the dequeued pointer \<open>cli\<close>. The session's fields
  are read from the store once, at the dequeue.
\<close>

definition eventLoop_command :: "('d, 'r) collaborators \<Rightarrow> int \<Rightarrow> cid \<Rightarrow> 'd world \<Rightarrow> action list \<times> 'd world" where
  "eventLoop_command K now cli w =
     (let c = cli_store w cli
      in case cli_cmd c of
           None \<Rightarrow> ([DebugC ''EventLoop: New Event From Client'' cli], w)
         | Some args \<Rightarrow>
             if cli_status c = ERROR \<or> cli_status c = EXIT then
               ([DebugC ''EventLoop: New Event From Client'' cli,
                 DebugC ''EventLoop: Remove Closed Client'' cli,
                 RemoveClientA cli],
                w\<lparr>srv := (srv w)\<lparr>s_clis := RemoveClient (s_clis (srv w)) cli\<rparr>\<rparr>)
             else
               (let (ok, clis') = AddClientIfNotExist (s_clis (srv w)) cli;
                    c1 = UpdateTimestamp now c;
                    d = db_store w (cli_db c);
                    (res, d') = (if length args = 2 then cmd_Get K d args else cmd_Set K d args);
                    reply = ToBytes K res
                in ([DebugC ''EventLoop: New Event From Client'' cli, AddClientIfNotExistA cli] @
                    (if ok then [Debug ''EventLoop: New Client''] else []) @
                    [UpdateTimestampA cli,
                     (if length args = 2 then CmdGet else CmdSet) (cli_db c) args,
                     SendRes cli reply],
                    w\<lparr>srv := (srv w)\<lparr>s_clis := clis'\<rparr>,
                      db_store := (db_store w)(cli_db c := d'),
                      cli_store := (cli_store w)(cli := c1\<lparr>cli_res := cli_res c1 @ [reply]\<rparr>)\<rparr>)))"

text \<open>
  One turn of the loop of \<open>eventLoop\<close> at time \<open>now\<close>: the case of the \<open>select\<close> that
  fired is the timer or the hand-off queue. The result is \<open>None\<close> when the queue's case is
  chosen while the queue is empty: that case cannot fire.
\<close>

datatype loop_select = TimerFired | CommandsReady

definition eventLoop_iter :: "('d, 'r) collaborators \<Rightarrow> int \<Rightarrow> loop_select \<Rightarrow> 'd world \<Rightarrow> (action list \<times> 'd world) option" where
  "eventLoop_iter K now sel w =
     (case sel of
        TimerFired \<Rightarrow>
          (case ExecuteOneIfExpire (Unix now) (s_tl (srv w)) of
             (fired, tl') \<Rightarrow>
               (let w1 = w\<lparr>srv := (srv w)\<lparr>s_tl := tl'\<rparr>\<rparr>
                in case fired of
                     None \<Rightarrow> Some ([Debug ''EventLoop: Timer trigger''], w1)
                   | Some f \<Rightarrow>
                       (case run_callback now f w1 of
                          (acts, w2) \<Rightarrow>
                            Some (Debug ''EventLoop: Timer trigger'' # RunTimeEvent f # acts, w2))))
      | CommandsReady \<Rightarrow>
          (case chan_recv (s_commands (srv w)) of
             None \<Rightarrow> None
           | Some (cli, q) \<Rightarrow>
               Some (eventLoop_command K now cli (w\<lparr>srv := (srv w)\<lparr>s_commands := q\<rparr>\<rparr>))))"

subsection \<open>A small instance of the collaborators\<close>

text \<open>
  Used to run the model on concrete inputs: a database is the list of the commands written
  to it, the read handler replies \<open>G\<close> and leaves the database alone, and the write
  handler replies \<open>S\<close> and records the command.
\<close>

definition demo_collaborators :: "(command list, bytes) collaborators" where
  "demo_collaborators =
     \<lparr>cmd_Get = (\<lambda>d args. ([71], d)),
      cmd_Set = (\<lambda>d args. ([83], args # d)),
      ToBytes = (\<lambda>r. r),
      NewDataBase = []\<rparr>"

subsection \<open>Reading a trace\<close>


fun is_handler_call :: "action \<Rightarrow> bool" where
  "is_handler_call (CmdGet d args) = True"
| "is_handler_call (CmdSet d args) = True"
| "is_handler_call a = False"

fun is_time_event :: "action \<Rightarrow> bool" where
  "is_time_event (RunTimeEvent f) = True"
| "is_time_event a = False"


subsection \<open>Handlers and the event loop around the hand-off queue\<close>

text \<open>The world when \<open>Start\<close> has made nothing but the server.\<close>

definition new_world :: "('d, 'r) collaborators \<Rightarrow> string \<Rightarrow> (cid \<Rightarrow> Client) \<Rightarrow> 'd world" where
  "new_world K u sessions =
     \<lparr>srv = NewServer u, db_store = (\<lambda>r. NewDataBase K), cli_store = sessions\<rparr>"

text \<open>
  The goroutines meet at the hand-off queue and in the sessions they share. Here each
  connection handler is a process with a place in \<open>handleRead\<close>: waiting in the \<open>select\<close>
  of the loop with the turns still to come, at the send \<open>s.commands <- client\<close> inside the
  loop (line 74), at the send after the loop (line 100), at \<open>conn.Close()\<close>, or returned.
  \<open>at_send\<close> gives, for a place at a send, the place after it.
\<close>

datatype handler_at =
    Selecting "handler_select list"
  | SendingCommand "handler_select list"
  | SendingStatus
  | Closing
  | Returned


text \<open>
  The state of the system: the world, the place of every handler, and three records of what
  has happened. \<open>accepted\<close> lists, for every send on the hand-off queue that went through,
  the pointer sent and the command the session held at that moment; \<open>delivered\<close> lists
  the pointers the event loop took out; \<open>executed\<close> lists the commands given to a command
  handler. All three are in order of time.
\<close>

record 'd sys =
  sys_world :: "'d world"
  handlers :: "cid \<Rightarrow> handler_at"
  accepted :: "(cid \<times> command option) list"
  delivered :: "cid list"
  executed :: "command list"

definition set_handler :: "cid \<Rightarrow> handler_at \<Rightarrow> 'd sys \<Rightarrow> 'd sys" where
  "set_handler cli p s = s\<lparr>handlers := (handlers s)(cli := p)\<rparr>"

definition set_session :: "cid \<Rightarrow> Client \<Rightarrow> 'd sys \<Rightarrow> 'd sys" where
  "set_session cli c s =
     s\<lparr>sys_world := (sys_world s)\<lparr>cli_store := (cli_store (sys_world s))(cli := c)\<rparr>\<rparr>"

text \<open>
  Leaving the loop (lines 93 to 98): unless the status is EXIT the handler sets the status
  to ERROR and the command to nil and stands at the send of line 100; otherwise it stands
  at \<open>conn.Close()\<close>.
\<close>

definition leave_loop :: "cid \<Rightarrow> 'd sys \<Rightarrow> 'd sys" where
  "leave_loop cli s =
     (let c = cli_store (sys_world s) cli
      in if cli_status c \<noteq> EXIT
         then set_handler cli SendingStatus
                (set_session cli (c\<lparr>cli_status := ERROR, cli_cmd := None\<rparr>) s)
         else set_handler cli Closing s)"










subsection \<open>Worlds and runs for concrete inputs\<close>

text \<open>
  A world to run the event loop on: session 7 is registered, the hand-off queue holds the
  pointers 7 and 8, every session has the given status and pending command, and every
  database is empty.
\<close>

definition demo_world :: "Status \<Rightarrow> command option \<Rightarrow> command list world" where
  "demo_world st pending =
     \<lparr>srv = (NewServer ''127.0.0.1:6379'')\<lparr>s_clis := {7}, s_commands := \<lparr>cap = 1000, buf = [7, 8]\<rparr>\<rparr>,
      db_store = (\<lambda>r. []),
      cli_store = (\<lambda>i. \<lparr>cli_db = 0, cli_status = st, cli_tp = 0, cli_cmd = pending, cli_res = []\<rparr>)\<rparr>"

text \<open>
  The same world with two time events in the list, one first due at second 100 and one at
  second 200.
\<close>

definition two_due :: "command list world" where
  "two_due =
     (demo_world ACTIVE None)
       \<lparr>srv := (srv (demo_world ACTIVE None))
          \<lparr>s_tl := [NewPeriodTimeEvent RemoveInactiveClients 100 (300 * Second),
                    NewPeriodTimeEvent RemoveInactiveClients 200 (60 * Second)]\<rparr>\<rparr>"

text \<open>
  A world for the idle sweep: sessions 7 and 8 are registered; session 7 was last active
  at time 0 and every other session 350 seconds later.
\<close>

definition idle_world :: "command list world" where
  "idle_world =
     \<lparr>srv = (NewServer ''127.0.0.1:6379'')\<lparr>s_clis := {7, 8}\<rparr>,
      db_store = (\<lambda>r. []),
      cli_store = (\<lambda>i. \<lparr>cli_db = 0, cli_status = ACTIVE,
                              cli_tp = (if i = 7 then 0 else 350 * Second),
                              cli_cmd = None, cli_res = []\<rparr>)\<rparr>"






section \<open>Properties of the line operations\<close>

lemma copy_within_shift:
  assumes "p < length xs"
  shows "copy_within (xs @ [z]) (Suc p) p = take (Suc p) xs @ drop p xs"
proof -
  have "min (length (xs @ [z]) - Suc p) (length (drop p (xs @ [z]))) = length xs - p"
    using assms by simp
  then show ?thesis
    using assms by (simp add: copy_within_def Let_def)
qed

lemma insert_by_shift:
  assumes "p < length xs"
  shows "(take (Suc p) xs @ drop p xs)[p := c] = take p xs @ c # drop p xs"
proof -
  have split: "take (Suc p) xs @ drop p xs = take p xs @ xs ! p # drop p xs"
    using assms by (simp add: take_Suc_conv_app_nth)
  have len: "length (take p xs) = p"
    using assms by simp
  have "(take p xs @ xs ! p # drop p xs)[length (take p xs) := c] = take p xs @ c # drop p xs"
    by (rule list_update_length)
  then show ?thesis
    unfolding split len .
qed

lemma write_at_end:
  assumes "insertPos l = int (length (content l))"
  shows "Line_write l c =
           Inr (l\<lparr>insertPos := insertPos l + 1, content := content l @ [c]\<rparr>,
                insertPos l + 1, [c])"
  using assms by (simp add: Line_write_def Let_def slice_from_def)

lemma write_inside:
  assumes "0 \<le> insertPos l" and "insertPos l < int (length (content l))"
  shows "Line_write l c =
           Inr (l\<lparr>content := take (nat (insertPos l)) (content l) @
                               c # drop (nat (insertPos l)) (content l),
                   insertPos := insertPos l + 1\<rparr>,
                insertPos l + 1, c # drop (nat (insertPos l)) (content l))"
proof -
  define p where "p = nat (insertPos l)"
  have p: "insertPos l = int p" "p < length (content l)"
    using assms by (simp_all add: p_def)
  have shift: "copy_within (content l @ [0]) (Suc p) p
                 = take (Suc p) (content l) @ drop p (content l)"
    using p(2) by (rule copy_within_shift)
  have upd: "(take (Suc p) (content l) @ drop p (content l))[p := c]
               = take p (content l) @ c # drop p (content l)"
    using p(2) by (rule insert_by_shift)
  have len: "length (take (Suc p) (content l) @ drop p (content l)) = Suc (length (content l))"
    using p(2) by simp
  have nat1: "nat (int p + 1) = Suc p" by simp
  show ?thesis
    using p upd len
    by (simp add: Line_write_def Let_def slice_from_def set_index_def shift nat1)
qed

lemma delete_inside:
  assumes "0 < insertPos l" and "insertPos l \<le> int (length (content l))"
  shows "Line_delete l =
           Inr (l\<lparr>content := take (nat (insertPos l - 1)) (content l) @
                               drop (nat (insertPos l)) (content l),
                   insertPos := insertPos l - 1\<rparr>,
                insertPos l - 1, drop (nat (insertPos l)) (content l) @ [32])"
proof -
  define p where "p = nat (insertPos l)"
  have p: "insertPos l = int p" "0 < p" "p \<le> length (content l)"
    using assms by (simp_all add: p_def)
  have pred: "nat (int p - 1) = p - 1"
    by simp
  have keep: "min (length (content l)) (p - 1) = p - 1"
    using p by simp
  have rest: "drop (p - 1) (take (p - 1) (content l) @ drop p (content l)) = drop p (content l)"
    using p by (simp add: keep)
  show ?thesis
    using p by (simp add: Line_delete_def Let_def slice_from_def pred keep rest)
qed

lemma moveCursor_clamps:
  "content (Line_moveCursor l offset) = content l \<and>
   0 \<le> insertPos (Line_moveCursor l offset) \<and>
   insertPos (Line_moveCursor l offset) \<le> int (length (content l))"
  by (simp add: Line_moveCursor_def Let_def)

lemma moveCursor_in_range:
  assumes "- (2 ^ 63) \<le> insertPos l + offset" and "insertPos l + offset < 2 ^ 63"
  shows "insertPos (Line_moveCursor l offset) =
           max 0 (min (int (length (content l))) (insertPos l + offset))"
proof -
  have "int64 (insertPos l + offset) = insertPos l + offset"
    unfolding int64_def sint_sbintrunc' using assms
    by (intro signed_take_bit_int_eq_self) simp_all
  then show ?thesis
    by (simp add: Line_moveCursor_def Let_def)
qed

lemma moveCursor_position:
  "insertPos (Line_moveCursor l offset) =
     max 0 (min (int (length (content l))) (int64 (insertPos l + offset)))"
  by (simp add: Line_moveCursor_def Let_def)

lemma newLine_inv: "Line_inv newLine \<and> Line_inv (newLineFrom bs)"
  by (simp add: Line_inv_def newLine_def newLineFrom_def)

text \<open>
  Claim C10. A line whose insert position lies between 0 and the length of its content
  keeps that property under every operation. \<open>write\<close> puts the byte at the insert position
  and moves the position one to the right; \<open>delete\<close> does nothing at position 0 and
  otherwise removes the byte before the position and moves the position one to the left;
  \<open>moveCursor\<close> leaves the content alone and moves the position by the offset, clamped
  into the range from 0 to the length: the new position is the 64-bit sum of position and
  offset if that lies in the range, 0 if the sum is negative and the length if the sum is
  beyond it; where the sum does not overflow 64 bits it is the plain sum. None of the
  operations panics on such a line.
\<close>

theorem Line_operations_keep_position_in_range:
  assumes "Line_inv l"
  shows "(let p = nat (insertPos l);
              l' = l\<lparr>insertPos := insertPos l + 1,
                      content := take p (content l) @ c # drop p (content l)\<rparr>
          in Line_write l c = Inr (l', insertPos l + 1, c # drop p (content l)) \<and> Line_inv l')
       \<and> (if insertPos l = 0 then Line_delete l = Inr (l, 0, [])
          else (let p = nat (insertPos l);
                    l' = l\<lparr>insertPos := insertPos l - 1,
                            content := take (p - 1) (content l) @ drop p (content l)\<rparr>
                in Line_delete l = Inr (l', insertPos l - 1, drop p (content l) @ [32])
                   \<and> Line_inv l'))
       \<and> content (Line_moveCursor l offset) = content l
       \<and> Line_inv (Line_moveCursor l offset)
       \<and> insertPos (Line_moveCursor l offset) =
           max 0 (min (int (length (content l))) (int64 (insertPos l + offset)))
       \<and> (- (2 ^ 63) \<le> insertPos l + offset \<and> insertPos l + offset < 2 ^ 63 \<longrightarrow>
           insertPos (Line_moveCursor l offset) =
             max 0 (min (int (length (content l))) (insertPos l + offset)))"
proof -
  have range: "0 \<le> insertPos l" "insertPos l \<le> int (length (content l))"
    using assms by (simp_all add: Line_inv_def)
  have w: "let p = nat (insertPos l);
               l' = l\<lparr>insertPos := insertPos l + 1,
                       content := take p (content l) @ c # drop p (content l)\<rparr>
           in Line_write l c = Inr (l', insertPos l + 1, c # drop p (content l)) \<and> Line_inv l'"
  proof (cases "insertPos l = int (length (content l))")
    case True
    then show ?thesis
      using write_at_end [OF True, of c] by (simp add: Let_def Line_inv_def)
  next
    case False
    then have "insertPos l < int (length (content l))"
      using range by simp
    then show ?thesis
      using write_inside [OF range(1), of c] range by (simp add: Let_def Line_inv_def)
  qed
  have d: "if insertPos l = 0 then Line_delete l = Inr (l, 0, [])
           else (let p = nat (insertPos l);
                     l' = l\<lparr>insertPos := insertPos l - 1,
                             content := take (p - 1) (content l) @ drop p (content l)\<rparr>
                 in Line_delete l = Inr (l', insertPos l - 1, drop p (content l) @ [32])
                    \<and> Line_inv l')"
  proof (cases "insertPos l = 0")
    case True
    then show ?thesis
      by (simp add: Line_delete_def)
  next
    case False
    then have pos: "0 < insertPos l"
      using range by simp
    have pred: "nat (insertPos l - 1) = nat (insertPos l) - 1"
      by simp
    show ?thesis
      using False delete_inside [OF pos range(2)] pos range
      by (simp add: Let_def Line_inv_def pred)
  qed
  have m: "content (Line_moveCursor l offset) = content l \<and> Line_inv (Line_moveCursor l offset)"
    using moveCursor_clamps [of l offset] by (simp add: Line_inv_def)
  have e: "insertPos (Line_moveCursor l offset) =
             max 0 (min (int (length (content l))) (int64 (insertPos l + offset)))"
    by (rule moveCursor_position)
  have r: "- (2 ^ 63) \<le> insertPos l + offset \<and> insertPos l + offset < 2 ^ 63 \<longrightarrow>
           insertPos (Line_moveCursor l offset) =
             max 0 (min (int (length (content l))) (insertPos l + offset))"
    using moveCursor_in_range [of l offset] by blast
  from w d m e r show ?thesis
    by (intro conjI) simp_all
qed

theorem Line_operations_keep_position_in_range_witness:
  "Line_inv \<lparr>insertPos = 1, content = [97, 98]\<rparr>
   \<and> Line_write \<lparr>insertPos = 1, content = [97, 98]\<rparr> 120
       = Inr (\<lparr>insertPos = 2, content = [97, 120, 98]\<rparr>, 2, [120, 98])
   \<and> Line_delete \<lparr>insertPos = 1, content = [97, 98]\<rparr>
       = Inr (\<lparr>insertPos = 0, content = [98]\<rparr>, 0, [98, 32])
   \<and> content (Line_moveCursor \<lparr>insertPos = 1, content = [97, 98]\<rparr> 5) = [97, 98]
   \<and> insertPos (Line_moveCursor \<lparr>insertPos = 1, content = [97, 98]\<rparr> 5) = 2
   \<and> Line_inv (Line_moveCursor \<lparr>insertPos = 1, content = [97, 98]\<rparr> 5)"
proof -
  have h: "Line_inv \<lparr>insertPos = 1, content = [97, 98]\<rparr>"
    by (simp add: Line_inv_def)
  show ?thesis
    using h Line_operations_keep_position_in_range [OF h, of 120 5]
    by (simp add: Let_def)
qed

theorem Line_moveCursor_left_of_start:
  "insertPos (Line_moveCursor \<lparr>insertPos = 1, content = [97, 98]\<rparr> (- 7)) = 0"
  using moveCursor_in_range [of "\<lparr>insertPos = 1, content = [97, 98]\<rparr>" "- 7"]
  by simp

section \<open>Properties of the connection handler\<close>

lemma handleRead_loop_status:
  "handleRead_loop cli c turns = Some (acts, c') \<Longrightarrow> cli_status c' = cli_status c"
proof (induction cli c turns arbitrary: acts c' rule: handleRead_loop.induct)
  case (1 cli c)
  then show ?case by simp
next
  case (2 cli c parsed rest)
  show ?case
  proof (cases "Err parsed")
    case (Some e)
    with "2.prems" show ?thesis by simp
  next
    case None
    show ?thesis
    proof (cases "Data parsed")
      case OtherData
      with None "2.prems" show ?thesis by simp
    next
      case (ArrayData a)
      with None "2.prems" obtain acts1 where
        "handleRead_loop cli (c\<lparr>cli_cmd := a\<rparr>) rest = Some (acts1, c')"
        by (simp split: option.splits prod.splits)
      from "2.IH" [OF None ArrayData this] show ?thesis by simp
    qed
  qed
next
  case (3 cli c r written rest)
  show ?case
  proof (cases written)
    case False
    with "3.prems" show ?thesis by simp
  next
    case True
    with "3.prems" obtain acts1 where
      "handleRead_loop cli c rest = Some (acts1, c')"
      by (simp split: option.splits prod.splits)
    moreover have "\<not> \<not> written" using True by simp
    ultimately show ?thesis using "3.IH" by blast
  qed
next
  case (4 cli c rest)
  then show ?case by simp
qed

lemma handleRead_loop_no_close:
  "handleRead_loop cli c turns = Some (acts, c') \<Longrightarrow> ConnClose k \<notin> set acts"
proof (induction cli c turns arbitrary: acts c' rule: handleRead_loop.induct)
  case (1 cli c)
  then show ?case by simp
next
  case (2 cli c parsed rest)
  show ?case
  proof (cases "Err parsed")
    case (Some e)
    with "2.prems" have "acts = [if e = ''EOF'' then DebugC ''Peer ShutDown Connection'' cli
                                 else DebugC (''Read Error: '' @ e) cli]"
      by simp
    then show ?thesis by simp
  next
    case None
    show ?thesis
    proof (cases "Data parsed")
      case OtherData
      with None "2.prems" have "acts = [WarningC ''Parse Command Error'' cli]"
        by simp
      then show ?thesis by simp
    next
      case (ArrayData a)
      with None "2.prems" obtain acts1 where
        sub: "handleRead_loop cli (c\<lparr>cli_cmd := a\<rparr>) rest = Some (acts1, c')"
        and acts: "acts = SendCommands cli # acts1"
        by (simp split: option.splits prod.splits)
      from "2.IH" [OF None ArrayData sub] acts show ?thesis by simp
    qed
  qed
next
  case (3 cli c r written rest)
  show ?case
  proof (cases written)
    case False
    with "3.prems" have "acts = [ConnWrite cli r, WarningC ''Write Error'' cli]"
      by simp
    then show ?thesis by simp
  next
    case True
    with "3.prems" obtain acts1 where
      sub: "handleRead_loop cli c rest = Some (acts1, c')"
      and acts: "acts = ConnWrite cli r # acts1"
      by (simp split: option.splits prod.splits)
    have "\<not> \<not> written" using True by simp
    from "3.IH" [OF this sub] acts show ?thesis by simp
  qed
next
  case (4 cli c rest)
  then show ?case by simp
qed

lemma handleRead_loop_waiting:
  "handleRead_loop cli c pre = None \<Longrightarrow>
     \<exists>acts0 c1. cli_status c1 = cli_status c \<and>
       (\<forall>rest. handleRead_loop cli c (pre @ rest) =
          (case handleRead_loop cli c1 rest of
             None \<Rightarrow> None
           | Some (acts, c') \<Rightarrow> Some (acts0 @ acts, c')))"
proof (induction cli c pre rule: handleRead_loop.induct)
  case (1 cli c)
  have "\<forall>rest. handleRead_loop cli c ([] @ rest) =
          (case handleRead_loop cli c rest of
             None \<Rightarrow> None
           | Some (acts, c') \<Rightarrow> Some ([] @ acts, c'))"
    by (simp split: option.splits)
  then show ?case by blast
next
  case (2 cli c parsed rest)
  from "2.prems" have no_err: "Err parsed = None"
    by (cases "Err parsed") simp_all
  with "2.prems" obtain a where arr: "Data parsed = ArrayData a"
    by (cases "Data parsed") simp_all
  with no_err "2.prems" have wait: "handleRead_loop cli (c\<lparr>cli_cmd := a\<rparr>) rest = None"
    by (simp split: option.splits prod.splits)
  from "2.IH" [OF no_err arr wait] obtain acts0 c1 where
    st: "cli_status c1 = cli_status (c\<lparr>cli_cmd := a\<rparr>)" and
    eq: "\<And>more. handleRead_loop cli (c\<lparr>cli_cmd := a\<rparr>) (rest @ more) =
          (case handleRead_loop cli c1 more of
             None \<Rightarrow> None
           | Some (acts, c') \<Rightarrow> Some (acts0 @ acts, c'))"
    by blast
  have "\<forall>more. handleRead_loop cli c ((FromParser parsed # rest) @ more) =
          (case handleRead_loop cli c1 more of
             None \<Rightarrow> None
           | Some (acts, c') \<Rightarrow> Some ((SendCommands cli # acts0) @ acts, c'))"
    using no_err arr by (simp add: eq split: option.splits)
  moreover have "cli_status c1 = cli_status c"
    using st by simp
  ultimately show ?case by blast
next
  case (3 cli c r written rest)
  from "3.prems" have w: "written"
    by (cases written) simp_all
  with "3.prems" have wait: "handleRead_loop cli c rest = None"
    by (simp split: option.splits prod.splits)
  have nw: "\<not> \<not> written" using w by simp
  from "3.IH" [OF nw wait] obtain acts0 c1 where
    st: "cli_status c1 = cli_status c" and
    eq: "\<And>more. handleRead_loop cli c (rest @ more) =
          (case handleRead_loop cli c1 more of
             None \<Rightarrow> None
           | Some (acts, c') \<Rightarrow> Some (acts0 @ acts, c'))"
    by blast
  have "\<forall>more. handleRead_loop cli c ((FromRes r written # rest) @ more) =
          (case handleRead_loop cli c1 more of
             None \<Rightarrow> None
           | Some (acts, c') \<Rightarrow> Some ((ConnWrite cli r # acts0) @ acts, c'))"
    using w by (simp add: eq split: option.splits)
  with st show ?case by blast
next
  case (4 cli c rest)
  then show ?case by simp
qed

lemma handleRead_exit_close:
  "filter (\<lambda>a. a = ConnClose cli) (fst (handleRead_exit cli c closed)) = [ConnClose cli]"
  by (simp add: handleRead_exit_def)

lemma handleRead_exit_status:
  "cli_status (snd (handleRead_exit cli c closed)) = (if cli_status c = EXIT then EXIT else ERROR)"
  by (simp add: handleRead_exit_def)

lemma handleRead_unfold:
  assumes "handleRead_loop cli c0 turns = Some (acts, c)"
  shows "handleRead cli c0 turns closed =
           Some (acts @ fst (handleRead_exit cli c closed), snd (handleRead_exit cli c closed))"
  using assms by (simp add: handleRead_def split: prod.splits)

text \<open>
  Claim C2, as the code has it. An ACTIVE session whose frame source yields EOF as its
  first frame: the handler logs the peer shutdown, leaves the loop with the status still
  ACTIVE, and the code after the loop turns every status other than EXIT into ERROR. The
  session ends as ERROR, not EXIT; the connection is closed.
\<close>

theorem handleRead_EOF_ends_as_ERROR:
  "handleRead 7 \<lparr>cli_db = 0, cli_status = ACTIVE, cli_tp = 0, cli_cmd = None, cli_res = []\<rparr>
     [FromParser \<lparr>Err = Some ''EOF'', Data = OtherData\<rparr>] True
   = Some ([DebugC ''Peer ShutDown Connection'' 7, SendCommands 7, ConnClose 7,
            Debug ''Goroutine Exit''],
           \<lparr>cli_db = 0, cli_status = ERROR, cli_tp = 0, cli_cmd = None, cli_res = []\<rparr>)"
  by (simp add: handleRead_def handleRead_exit_def)

text \<open>
  Claim C2, amended. When the frame source yields an error, EOF or any other, while the
  handler waits in its loop, the handler returns; the session's terminal status is EXIT
  only if the status was EXIT already and ERROR otherwise; and the connection is closed,
  exactly once.
\<close>

theorem handleRead_frame_error_status:
  assumes "handleRead_loop cli c0 pre = None"
  shows "map_option (\<lambda>(acts, c'). (cli_status c', filter (\<lambda>a. a = ConnClose cli) acts))
           (handleRead cli c0 (pre @ FromParser \<lparr>Err = Some e, Data = d\<rparr> # rest) closed)
         = Some (if cli_status c0 = EXIT then EXIT else ERROR, [ConnClose cli])"
proof -
  from handleRead_loop_waiting [OF assms] obtain acts0 c1 where
    st: "cli_status c1 = cli_status c0" and
    eq: "\<And>more. handleRead_loop cli c0 (pre @ more) =
          (case handleRead_loop cli c1 more of
             None \<Rightarrow> None
           | Some (acts, c') \<Rightarrow> Some (acts0 @ acts, c'))"
    by blast
  define line where "line = (if e = ''EOF'' then DebugC ''Peer ShutDown Connection'' cli
                             else DebugC (''Read Error: '' @ e) cli)"
  define turns where "turns = pre @ FromParser \<lparr>Err = Some e, Data = d\<rparr> # rest"
  have loop: "handleRead_loop cli c0 turns = Some (acts0 @ [line], c1)"
    by (simp add: eq line_def turns_def)
  have "ConnClose cli \<notin> set (acts0 @ [line])"
    using loop by (rule handleRead_loop_no_close)
  then have none: "filter (\<lambda>a. a = ConnClose cli) (acts0 @ [line]) = []"
    unfolding filter_empty_conv by blast
  have run: "handleRead cli c0 turns closed =
               Some ((acts0 @ [line]) @ fst (handleRead_exit cli c1 closed),
                     snd (handleRead_exit cli c1 closed))"
    using loop by (rule handleRead_unfold)
  have "filter (\<lambda>a. a = ConnClose cli) ((acts0 @ [line]) @ fst (handleRead_exit cli c1 closed))
          = filter (\<lambda>a. a = ConnClose cli) (acts0 @ [line]) @
            filter (\<lambda>a. a = ConnClose cli) (fst (handleRead_exit cli c1 closed))"
    by (rule filter_append)
  also have "\<dots> = [] @ [ConnClose cli]"
    by (simp only: none handleRead_exit_close)
  finally have close: "filter (\<lambda>a. a = ConnClose cli)
                 ((acts0 @ [line]) @ fst (handleRead_exit cli c1 closed)) = [ConnClose cli]"
    by simp
  have status: "cli_status (snd (handleRead_exit cli c1 closed))
                  = (if cli_status c0 = EXIT then EXIT else ERROR)"
    by (simp only: handleRead_exit_status st)
  show ?thesis
    unfolding turns_def [symmetric] run option.map prod.case close status ..
qed

theorem handleRead_frame_error_status_witness:
  "handleRead_loop 7 \<lparr>cli_db = 0, cli_status = ACTIVE, cli_tp = 0, cli_cmd = None, cli_res = []\<rparr>
       [FromParser \<lparr>Err = None, Data = ArrayData (Some [[71], [97]])\<rparr>] = None
   \<and> map_option (\<lambda>(acts, c'). (cli_status c', filter (\<lambda>a. a = ConnClose 7) acts))
         (handleRead 7 \<lparr>cli_db = 0, cli_status = ACTIVE, cli_tp = 0, cli_cmd = None, cli_res = []\<rparr>
           ([FromParser \<lparr>Err = None, Data = ArrayData (Some [[71], [97]])\<rparr>] @
            FromParser \<lparr>Err = Some ''broken frame'', Data = OtherData\<rparr> # []) True)
       = Some (ERROR, [ConnClose 7])"
proof -
  have h: "handleRead_loop 7 \<lparr>cli_db = 0, cli_status = ACTIVE, cli_tp = 0, cli_cmd = None, cli_res = []\<rparr>
       [FromParser \<lparr>Err = None, Data = ArrayData (Some [[71], [97]])\<rparr>] = None"
    by simp
  have "(if cli_status \<lparr>cli_db = 0, cli_status = ACTIVE, cli_tp = 0, cli_cmd = None, cli_res = []\<rparr> = EXIT
         then EXIT else ERROR) = ERROR"
    by simp
  with handleRead_frame_error_status [OF h, of "''broken frame''" OtherData "[]" True] h
  show ?thesis
    by (simp only: simp_thms)
qed

text \<open>
  Claim C3. Whenever the loop of the handler is left, with the actions \<open>loop_acts\<close> done
  and the session as \<open>c\<close>: if the status is not EXIT the handler sets it to ERROR, sets
  the pending command to nil and sends one notification on the hand-off queue; in every
  case the next thing it does is close the socket, which the loop itself never did. The
  loop does not change the status, so the status tested is the one the session had when
  the handler started.
\<close>

theorem handleRead_after_loop:
  assumes "handleRead_loop cli c0 turns = Some (loop_acts, c)"
  shows "handleRead cli c0 turns closed =
           Some (loop_acts @
                 (if cli_status c \<noteq> EXIT then [SendCommands cli] else []) @
                 [ConnClose cli] @
                 (if closed then [Debug ''Goroutine Exit''] else []),
                 if cli_status c \<noteq> EXIT then c\<lparr>cli_status := ERROR, cli_cmd := None\<rparr> else c)
         \<and> ConnClose cli \<notin> set loop_acts
         \<and> cli_status c = cli_status c0"
proof -
  have run: "handleRead cli c0 turns closed =
               Some (loop_acts @ fst (handleRead_exit cli c closed),
                     snd (handleRead_exit cli c closed))"
    using assms by (rule handleRead_unfold)
  have ex: "handleRead_exit cli c closed =
              ((if cli_status c \<noteq> EXIT then [SendCommands cli] else []) @
               [ConnClose cli] @
               (if closed then [Debug ''Goroutine Exit''] else []),
               if cli_status c \<noteq> EXIT then c\<lparr>cli_status := ERROR, cli_cmd := None\<rparr> else c)"
    by (simp add: handleRead_exit_def)
  have nc: "ConnClose cli \<notin> set loop_acts"
    using assms by (rule handleRead_loop_no_close)
  have st: "cli_status c = cli_status c0"
    using assms by (rule handleRead_loop_status)
  show ?thesis
    unfolding run ex fst_conv snd_conv using nc st by (intro conjI refl)
qed

theorem handleRead_after_loop_witness:
  "handleRead_loop 7 \<lparr>cli_db = 0, cli_status = ACTIVE, cli_tp = 0, cli_cmd = None, cli_res = []\<rparr>
     [FromParser \<lparr>Err = None, Data = ArrayData (Some [[71], [97]])\<rparr>, FromRes [43] False]
   = Some ([SendCommands 7, ConnWrite 7 [43], WarningC ''Write Error'' 7],
           \<lparr>cli_db = 0, cli_status = ACTIVE, cli_tp = 0, cli_cmd = Some [[71], [97]], cli_res = []\<rparr>)
   \<and> handleRead 7 \<lparr>cli_db = 0, cli_status = ACTIVE, cli_tp = 0, cli_cmd = None, cli_res = []\<rparr>
     [FromParser \<lparr>Err = None, Data = ArrayData (Some [[71], [97]])\<rparr>, FromRes [43] False] True
   = Some ([SendCommands 7, ConnWrite 7 [43], WarningC ''Write Error'' 7,
            SendCommands 7, ConnClose 7, Debug ''Goroutine Exit''],
           \<lparr>cli_db = 0, cli_status = ERROR, cli_tp = 0, cli_cmd = None, cli_res = []\<rparr>)"
proof -
  have h: "handleRead_loop 7 \<lparr>cli_db = 0, cli_status = ACTIVE, cli_tp = 0, cli_cmd = None, cli_res = []\<rparr>
     [FromParser \<lparr>Err = None, Data = ArrayData (Some [[71], [97]])\<rparr>, FromRes [43] False]
   = Some ([SendCommands 7, ConnWrite 7 [43], WarningC ''Write Error'' 7],
           \<lparr>cli_db = 0, cli_status = ACTIVE, cli_tp = 0, cli_cmd = Some [[71], [97]], cli_res = []\<rparr>)"
    by simp
  show ?thesis
    using h handleRead_after_loop [OF h, of True]
    by simp
qed

section \<open>Properties of the event loop\<close>

lemma eventLoop_iter_commands:
  assumes "chan_recv (s_commands (srv w)) = Some (cli, q)"
  shows "eventLoop_iter K now CommandsReady w =
           Some (eventLoop_command K now cli (w\<lparr>srv := (srv w)\<lparr>s_commands := q\<rparr>\<rparr>))"
  using assms by (simp add: eventLoop_iter_def)



lemma eventLoop_command_exec:
  assumes "cli_cmd (cli_store w cli) = Some args"
    and "cli_status (cli_store w cli) \<noteq> ERROR" and "cli_status (cli_store w cli) \<noteq> EXIT"
  shows "eventLoop_command K now cli w =
           ([DebugC ''EventLoop: New Event From Client'' cli, AddClientIfNotExistA cli] @
            (if cli \<notin> s_clis (srv w) then [Debug ''EventLoop: New Client''] else []) @
            [UpdateTimestampA cli,
             (if length args = 2 then CmdGet else CmdSet) (cli_db (cli_store w cli)) args,
             SendRes cli (ToBytes K (fst ((if length args = 2 then cmd_Get K else cmd_Set K)
                            (db_store w (cli_db (cli_store w cli))) args)))],
            w\<lparr>srv := (srv w)\<lparr>s_clis := insert cli (s_clis (srv w))\<rparr>,
              db_store := (db_store w)
                (cli_db (cli_store w cli) :=
                   snd ((if length args = 2 then cmd_Get K else cmd_Set K)
                          (db_store w (cli_db (cli_store w cli))) args)),
              cli_store := (cli_store w)
                (cli := (cli_store w cli)
                   \<lparr>cli_tp := now,
                    cli_res := cli_res (cli_store w cli) @
                      [ToBytes K (fst ((if length args = 2 then cmd_Get K else cmd_Set K)
                            (db_store w (cli_db (cli_store w cli))) args))]\<rparr>)\<rparr>)"
  using assms
  by (simp add: eventLoop_command_def AddClientIfNotExist_def UpdateTimestamp_def Let_def
      split: prod.splits)

text \<open>
  Claim C1, as the code has it. The event loop tests \<open>cli.cmd == nil\<close> before it looks at
  the status and goes on to the next turn at once. For a registered session whose
  notification carries no command and whose status is ERROR, the turn takes the pointer
  from the queue, writes its log line and does nothing else: no command is executed, and
  the session is still in the client registry afterwards.
\<close>

theorem eventLoop_keeps_failed_session_without_command:
  "eventLoop_iter demo_collaborators 5 CommandsReady (demo_world ERROR None)
     = Some ([DebugC ''EventLoop: New Event From Client'' 7],
             (demo_world ERROR None)
               \<lparr>srv := (srv (demo_world ERROR None))\<lparr>s_commands := \<lparr>cap = 1000, buf = [8]\<rparr>\<rparr>\<rparr>)
   \<and> 7 \<in> s_clis (srv (demo_world ERROR None))
   \<and> cli_status (cli_store (demo_world ERROR None) 7) = ERROR
   \<and> cli_cmd (cli_store (demo_world ERROR None) 7) = None"
  by (simp add: eventLoop_iter_def chan_recv_def eventLoop_command_def demo_world_def)



text \<open>
  Claim C5. A command that the event loop executes goes to exactly one handler, chosen by
  the number of arguments alone: \<open>cmd.Get\<close> when there are exactly 2, \<open>cmd.Set\<close> for every
  other number. The database afterwards and the reply are that handler's.
\<close>

theorem eventLoop_routes_on_argument_count:
  assumes "chan_recv (s_commands (srv w)) = Some (cli, q)"
    and "cli_cmd (cli_store w cli) = Some args"
    and "cli_status (cli_store w cli) \<noteq> ERROR"
    and "cli_status (cli_store w cli) \<noteq> EXIT"
  shows "map_option
           (\<lambda>(acts, w'). (filter is_handler_call acts,
                          db_store w' (cli_db (cli_store w cli)),
                          last (cli_res (cli_store w' cli))))
           (eventLoop_iter K now CommandsReady w)
         = (let db = cli_db (cli_store w cli); d = db_store w db
            in if length args = 2
               then Some ([CmdGet db args], snd (cmd_Get K d args), ToBytes K (fst (cmd_Get K d args)))
               else Some ([CmdSet db args], snd (cmd_Set K d args), ToBytes K (fst (cmd_Set K d args))))"
proof -
  let ?w1 = "w\<lparr>srv := (srv w)\<lparr>s_commands := q\<rparr>\<rparr>"
  have turn: "eventLoop_iter K now CommandsReady w = Some (eventLoop_command K now cli ?w1)"
    using assms(1) by (rule eventLoop_iter_commands)
  have "cli_cmd (cli_store ?w1 cli) = Some args"
    and "cli_status (cli_store ?w1 cli) \<noteq> ERROR" and "cli_status (cli_store ?w1 cli) \<noteq> EXIT"
    using assms by simp_all
  note body = eventLoop_command_exec [OF this, of K now]
  show ?thesis
    unfolding turn body by (simp add: Let_def)
qed

theorem eventLoop_routes_on_argument_count_witness:
  "chan_recv (s_commands (srv (demo_world ACTIVE (Some [[80, 73, 78, 71]]))))
     = Some (7, \<lparr>cap = 1000, buf = [8]\<rparr>)
   \<and> cli_cmd (cli_store (demo_world ACTIVE (Some [[80, 73, 78, 71]])) 7) = Some [[80, 73, 78, 71]]
   \<and> cli_status (cli_store (demo_world ACTIVE (Some [[80, 73, 78, 71]])) 7) \<noteq> ERROR
   \<and> cli_status (cli_store (demo_world ACTIVE (Some [[80, 73, 78, 71]])) 7) \<noteq> EXIT
   \<and> map_option
        (\<lambda>(acts, w'). (filter is_handler_call acts,
                       db_store w' (cli_db (cli_store (demo_world ACTIVE (Some [[80, 73, 78, 71]])) 7)),
                       last (cli_res (cli_store w' 7))))
        (eventLoop_iter demo_collaborators 5 CommandsReady (demo_world ACTIVE (Some [[80, 73, 78, 71]])))
      = Some ([CmdSet 0 [[80, 73, 78, 71]]], [[[80, 73, 78, 71]]], [83])"
proof -
  let ?w = "demo_world ACTIVE (Some [[80, 73, 78, 71]])"
  have h1: "chan_recv (s_commands (srv ?w)) = Some (7, \<lparr>cap = 1000, buf = [8]\<rparr>)"
    by (simp add: demo_world_def chan_recv_def)
  have h2: "cli_cmd (cli_store ?w 7) = Some [[80, 73, 78, 71]]"
    by (simp add: demo_world_def)
  have h3: "cli_status (cli_store ?w 7) \<noteq> ERROR"
    by (simp add: demo_world_def)
  have h4: "cli_status (cli_store ?w 7) \<noteq> EXIT"
    by (simp add: demo_world_def)
  have "map_option
        (\<lambda>(acts, w'). (filter is_handler_call acts,
                       db_store w' (cli_db (cli_store ?w 7)),
                       last (cli_res (cli_store w' 7))))
        (eventLoop_iter demo_collaborators 5 CommandsReady ?w)
      = Some ([CmdSet 0 [[80, 73, 78, 71]]], [[[80, 73, 78, 71]]], [83])"
    unfolding eventLoop_routes_on_argument_count [OF h1 h2 h3 h4, of demo_collaborators 5]
    by (simp add: demo_world_def demo_collaborators_def Let_def)
  with h1 h2 h3 h4 show ?thesis
    by (intro conjI)
qed

section \<open>Properties of the timer turn and of the start of the event loop\<close>

lemma ExecuteOneIfExpire_fired:
  "fst (ExecuteOneIfExpire t es) = map_option te_callback (find (\<lambda>e. te_when e \<le> t) es)"
  by (induction es) (auto split: prod.splits)

lemma run_callback_time_events:
  "filter is_time_event (fst (run_callback now f w)) = []"
  by (simp add: run_callback_def)

lemma eventLoop_iter_timer:
  "eventLoop_iter K now TimerFired w =
     Some (case fst (ExecuteOneIfExpire (Unix now) (s_tl (srv w))) of
             None \<Rightarrow>
               ([Debug ''EventLoop: Timer trigger''],
                w\<lparr>srv := (srv w)\<lparr>s_tl := snd (ExecuteOneIfExpire (Unix now) (s_tl (srv w)))\<rparr>\<rparr>)
           | Some f \<Rightarrow>
               (Debug ''EventLoop: Timer trigger'' # RunTimeEvent f #
                  fst (run_callback now f
                    (w\<lparr>srv := (srv w)\<lparr>s_tl := snd (ExecuteOneIfExpire (Unix now) (s_tl (srv w)))\<rparr>\<rparr>)),
                snd (run_callback now f
                    (w\<lparr>srv := (srv w)\<lparr>s_tl := snd (ExecuteOneIfExpire (Unix now) (s_tl (srv w)))\<rparr>\<rparr>))))"
  by (simp add: eventLoop_iter_def Let_def split: prod.splits option.splits)

text \<open>
  Claim C6. A turn of the event loop in which the timer fired calls \<open>ExecuteOneIfExpire\<close>
  once and runs the callback of at most one time event: of exactly one when some event of
  the list is due, however many are, and of none otherwise.
\<close>

theorem eventLoop_timer_runs_at_most_one_event:
  "map_option (\<lambda>(acts, w'). length (filter is_time_event acts))
     (eventLoop_iter K now TimerFired w)
   = Some (if \<exists>e \<in> set (s_tl (srv w)). te_when e \<le> Unix now then 1 else 0)"
proof (cases "find (\<lambda>e. te_when e \<le> Unix now) (s_tl (srv w))")
  case None
  then have none: "\<not> (\<exists>e \<in> set (s_tl (srv w)). te_when e \<le> Unix now)"
    by (simp add: find_None_iff)
  have "fst (ExecuteOneIfExpire (Unix now) (s_tl (srv w))) = None"
    by (simp add: ExecuteOneIfExpire_fired None)
  then show ?thesis
    using none by (simp add: eventLoop_iter_timer)
next
  case (Some e)
  then have due: "\<exists>e \<in> set (s_tl (srv w)). te_when e \<le> Unix now"
    by (auto simp: find_Some_iff)
  have "fst (ExecuteOneIfExpire (Unix now) (s_tl (srv w))) = Some (te_callback e)"
    by (simp add: ExecuteOneIfExpire_fired Some)
  then show ?thesis
    using due by (simp add: eventLoop_iter_timer run_callback_time_events)
qed

theorem eventLoop_timer_runs_at_most_one_event_witness:
  "map_option (\<lambda>(acts, w'). length (filter is_time_event acts))
     (eventLoop_iter demo_collaborators (250 * Second) TimerFired two_due) = Some 1
   \<and> length (filter (\<lambda>e. te_when e \<le> Unix (250 * Second)) (s_tl (srv two_due))) = 2"
proof -
  have tl: "s_tl (srv two_due) =
              [NewPeriodTimeEvent RemoveInactiveClients 100 (300 * Second),
               NewPeriodTimeEvent RemoveInactiveClients 200 (60 * Second)]"
    by (simp add: two_due_def)
  have now: "Unix (250 * Second) = 250"
    by (simp add: Unix_def Second_def)
  have due: "\<exists>e \<in> set (s_tl (srv two_due)). te_when e \<le> Unix (250 * Second)"
    unfolding tl now by (simp add: NewPeriodTimeEvent_def)
  have two: "length (filter (\<lambda>e. te_when e \<le> Unix (250 * Second)) (s_tl (srv two_due))) = 2"
    unfolding tl now by (simp add: NewPeriodTimeEvent_def)
  have "map_option (\<lambda>(acts, w'). length (filter is_time_event acts))
     (eventLoop_iter demo_collaborators (250 * Second) TimerFired two_due) = Some 1"
    unfolding eventLoop_timer_runs_at_most_one_event [of demo_collaborators "250 * Second" two_due]
    using due by simp
  with two show ?thesis
    by (intro conjI)
qed

lemma eventLoop_start_unfold:
  "eventLoop_start now w =
     w\<lparr>srv := (srv w)\<lparr>s_tl := s_tl (srv w) @
       [\<lparr>te_callback = RemoveInactiveClients, te_when = Unix now + 300,
         te_interval = 300 * Second, te_periodic = True\<rparr>]\<rparr>\<rparr>"
proof -
  have "(now + 300 * Second) div Second = now div Second + 300"
    by (simp add: Second_def)
  then have at: "Unix (now + 300 * Second) = Unix now + 300"
    by (simp add: Unix_def)
  show ?thesis
    unfolding eventLoop_start_def at by (simp add: AddTimeEvent_def NewPeriodTimeEvent_def)
qed

text \<open>
  Claim C7. Before its loop the event loop adds exactly one time event to the list, and on
  a server as \<open>NewServer\<close> made it that event is the only one. The event is periodic, first
  due 300 seconds after the current Unix second, with an interval of 300 seconds. Its
  callback logs, calls \<open>RemoveLongNotUsed(1, 300 s)\<close> and so removes from the registry
  exactly the sessions whose last activity is 300 seconds or more ago. On a list that was
  empty, a timer turn runs that callback if and only if the 300 seconds have passed, and
  then the event is due again 300 seconds later.
\<close>

theorem eventLoop_start_registers_idle_sweep:
  "s_tl (srv (eventLoop_start now (w :: 'd world))) =
     s_tl (srv w) @
       [\<lparr>te_callback = RemoveInactiveClients, te_when = Unix now + 300,
         te_interval = 300 * Second, te_periodic = True\<rparr>]
   \<and> s_tl (srv (eventLoop_start now (new_world K u sessions))) =
       [\<lparr>te_callback = RemoveInactiveClients, te_when = Unix now + 300,
         te_interval = 300 * Second, te_periodic = True\<rparr>]
   \<and> run_callback t RemoveInactiveClients w =
       ([Debug ''TimeEvent: Remove Inactive Clients'', RemoveLongNotUsedA 1 (300 * Second)],
        w\<lparr>srv := (srv w)\<lparr>s_clis :=
             {c \<in> s_clis (srv w). t - cli_tp (cli_store w c) < 300 * Second}\<rparr>\<rparr>)
   \<and> (s_tl (srv w) = [] \<longrightarrow>
        map_option (\<lambda>(acts, w'). (filter is_time_event acts, s_clis (srv w'), s_tl (srv w')))
          (eventLoop_iter K' t TimerFired (eventLoop_start now w))
        = Some (if Unix now + 300 \<le> Unix t
                then ([RunTimeEvent RemoveInactiveClients],
                      {c \<in> s_clis (srv w). t - cli_tp (cli_store w c) < 300 * Second},
                      [\<lparr>te_callback = RemoveInactiveClients, te_when = Unix t + 300,
                        te_interval = 300 * Second, te_periodic = True\<rparr>])
                else ([], s_clis (srv w),
                      [\<lparr>te_callback = RemoveInactiveClients, te_when = Unix now + 300,
                        te_interval = 300 * Second, te_periodic = True\<rparr>])))"
proof -
  let ?ev = "\<lparr>te_callback = RemoveInactiveClients, te_when = Unix now + 300,
              te_interval = 300 * Second, te_periodic = True\<rparr>"
  note start = eventLoop_start_unfold
  have c1: "s_tl (srv (eventLoop_start now w)) = s_tl (srv w) @ [?ev]"
    by (simp add: start)
  have empty: "s_tl (srv (new_world K u sessions)) = []"
    by (simp add: new_world_def NewServer_def NewTimeEventList_def)
  have c2: "s_tl (srv (eventLoop_start now (new_world K u sessions))) = [?ev]"
    by (simp add: start empty)
  have cb: "run_callback t RemoveInactiveClients v =
       ([Debug ''TimeEvent: Remove Inactive Clients'', RemoveLongNotUsedA 1 (300 * Second)],
        v\<lparr>srv := (srv v)\<lparr>s_clis :=
             {c \<in> s_clis (srv v). t - cli_tp (cli_store v c) < 300 * Second}\<rparr>\<rparr>)"
    for v :: "'d world"
    by (simp add: run_callback_def RemoveLongNotUsed_def)
  have nz: "Second \<noteq> 0"
    by (simp add: Second_def)
  have c4: "map_option (\<lambda>(acts, w'). (filter is_time_event acts, s_clis (srv w'), s_tl (srv w')))
          (eventLoop_iter K' t TimerFired (eventLoop_start now w))
        = Some (if Unix now + 300 \<le> Unix t
                then ([RunTimeEvent RemoveInactiveClients],
                      {c \<in> s_clis (srv w). t - cli_tp (cli_store w c) < 300 * Second},
                      [\<lparr>te_callback = RemoveInactiveClients, te_when = Unix t + 300,
                        te_interval = 300 * Second, te_periodic = True\<rparr>])
                else ([], s_clis (srv w), [?ev]))"
    if none: "s_tl (srv w) = []"
  proof (cases "Unix now + 300 \<le> Unix t")
    case True
    then have fire: "ExecuteOneIfExpire (Unix t) [?ev] =
                 (Some RemoveInactiveClients,
                  [\<lparr>te_callback = RemoveInactiveClients, te_when = Unix t + 300,
                    te_interval = 300 * Second, te_periodic = True\<rparr>])"
      by (simp add: nz)
    show ?thesis
      using True by (simp add: eventLoop_iter_timer start none fire cb nz)
  next
    case False
    then have wait: "ExecuteOneIfExpire (Unix t) [?ev] = (None, [?ev])"
      by simp
    show ?thesis
      using False by (simp add: eventLoop_iter_timer start none wait)
  qed
  show ?thesis
    using c1 c2 cb [of w] c4 by blast
qed

theorem eventLoop_start_registers_idle_sweep_witness:
  "s_tl (srv idle_world) = []
   \<and> map_option (\<lambda>(acts, w'). (filter is_time_event acts, s_clis (srv w'), s_tl (srv w')))
       (eventLoop_iter demo_collaborators (400 * Second + 5) TimerFired
          (eventLoop_start (100 * Second) idle_world))
     = Some ([RunTimeEvent RemoveInactiveClients], {8},
             [\<lparr>te_callback = RemoveInactiveClients, te_when = 700,
               te_interval = 300 * Second, te_periodic = True\<rparr>])"
proof -
  have h: "s_tl (srv idle_world) = []"
    by (simp add: idle_world_def NewServer_def NewTimeEventList_def)
  have now: "Unix (100 * Second) = 100" and t: "Unix (400 * Second + 5) = 400"
    by (simp_all add: Unix_def Second_def)
  have swept: "{c \<in> s_clis (srv idle_world).
                 400 * Second + 5 - cli_tp (cli_store idle_world c) < 300 * Second} = {8}"
    by (auto simp: idle_world_def Second_def)
  have "map_option (\<lambda>(acts, w'). (filter is_time_event acts, s_clis (srv w'), s_tl (srv w')))
       (eventLoop_iter demo_collaborators (400 * Second + 5) TimerFired
          (eventLoop_start (100 * Second) idle_world))
     = Some ([RunTimeEvent RemoveInactiveClients], {8},
             [\<lparr>te_callback = RemoveInactiveClients, te_when = 700,
               te_interval = 300 * Second, te_periodic = True\<rparr>])"
    using eventLoop_start_registers_idle_sweep
            [of "100 * Second" idle_world demo_collaborators "[]" "cli_store idle_world"
                "400 * Second + 5" demo_collaborators]
          h
    by (simp only: now t swept) simp
  with h show ?thesis
    by (intro conjI)
qed

section \<open>Properties of the hand-off queue\<close>





text \<open>
  The handler as a process and \<open>handleRead\<close> as a function do the same after the loop:
  the session is left as \<open>handleRead_exit\<close> leaves it, and the process stands at the send of
  line 100 exactly when the function sends.
\<close>

lemma leave_loop_agrees:
  "cli_store (sys_world (leave_loop cli s)) cli =
     snd (handleRead_exit cli (cli_store (sys_world s) cli) closed)
   \<and> (handlers (leave_loop cli s) cli = SendingStatus) =
       (SendCommands cli \<in> set (fst (handleRead_exit cli (cli_store (sys_world s) cli) closed)))
   \<and> (handlers (leave_loop cli s) cli = Closing) =
       (SendCommands cli \<notin> set (fst (handleRead_exit cli (cli_store (sys_world s) cli) closed)))"
  by (simp add: leave_loop_def handleRead_exit_def set_handler_def set_session_def Let_def)
























end
